theory Spec2Isabelle
  imports Main "HOL-Library.Word"
begin

section \<open>A debugging allocator over a bump arena\<close>

text \<open>
  The development embeds \<^verbatim>\<open>src/pset1/build/Project1 Test1.cpp\<close>: the allocator
  \<^verbatim>\<open>m61_malloc\<close> / \<^verbatim>\<open>m61_free\<close> / \<^verbatim>\<open>m61_calloc\<close> over one 8 MiB buffer, the
  vector of active allocations, the statistics and the leak report.

  \<^item> \<^verbatim>\<open>size_t\<close>, \<^verbatim>\<open>uintptr_t\<close>, \<^verbatim>\<open>unsigned long long\<close> and \<^verbatim>\<open>void*\<close> are 64-bit words
    (an LP64 target): \<open>+\<close>, \<open>-\<close> and \<open>*\<close> wrap, \<open>div\<close> and \<open><\<close> are unsigned,
    \<^verbatim>\<open>nullptr\<close> is the word 0 and \<^verbatim>\<open>SIZE_MAX\<close> the word \<open>- 1\<close>.
  \<^item> \<^verbatim>\<open>const char* file\<close> is a \<open>string option\<close>, \<open>None\<close> for a null pointer;
    \<^verbatim>\<open>int line\<close> is an \<open>int\<close>, since the source only stores and prints it.
  \<^item> The global variables form one record that every operation takes and returns;
    the record also holds the bytes of memory and the text written to the two
    output streams.
\<close>

type_synonym size_t = "64 word"
type_synonym addr = "64 word"

abbreviation (input) nullptr :: addr where
  "nullptr \<equiv> 0"

abbreviation (input) SIZE_MAX :: size_t where
  "SIZE_MAX \<equiv> - 1"

subsection \<open>Data\<close>

text \<open>\<^verbatim>\<open>struct allocation_info\<close> (the fields \<^verbatim>\<open>size\<close> and \<^verbatim>\<open>file\<close> are \<open>size_a\<close> and \<open>file_a\<close> here).\<close>

record allocation_info =
  ptr :: addr
  size_a :: size_t
  file_a :: "string option"
  line :: int

text \<open>
  Modelled from the spec: the type \<^verbatim>\<open>m61_statistics\<close> is declared in \<^verbatim>\<open>m61.hh\<close>, which
  is not among the sources. The source initialises eight members and uses them by
  name; the specification describes them as the active, total and failed counts and
  byte sums and the smallest and largest address handed out.
\<close>

record m61_statistics =
  nactive :: "64 word"
  active_size :: "64 word"
  ntotal :: "64 word"
  total_size :: "64 word"
  nfail :: "64 word"
  fail_size :: "64 word"
  heap_min :: addr
  heap_max :: addr

text \<open>\<^verbatim>\<open>struct m61_memory_buffer\<close> (the field \<^verbatim>\<open>size\<close> is \<open>size_b\<close> here).\<close>

record m61_memory_buffer =
  buffer :: addr
  pos :: size_t
  size_b :: size_t

text \<open>
  The program state: the three globals of the source, the content of memory, and what
  has been written to \<^verbatim>\<open>stdout\<close> and \<^verbatim>\<open>stderr\<close>.
\<close>

record m61_state =
  active_allocations :: "allocation_info list"
  gstats :: m61_statistics
  default_buffer :: m61_memory_buffer
  mem :: "addr \<Rightarrow> 8 word"
  stdout_s :: string
  stderr_s :: string

text \<open>
  The state after static initialisation: an empty vector, \<^verbatim>\<open>gstats = {0,...,0}\<close>, and
  a buffer of \<^verbatim>\<open>8 << 20\<close> bytes at the address \<open>base\<close> that \<^verbatim>\<open>mmap\<close> returned, with
  \<^verbatim>\<open>pos = 0\<close>. The content \<open>m\<close> of memory is arbitrary.
\<close>

definition init_stats :: m61_statistics where
  "init_stats = \<lparr>nactive = 0, active_size = 0, ntotal = 0, total_size = 0,
     nfail = 0, fail_size = 0, heap_min = 0, heap_max = 0\<rparr>"

definition init_state :: "addr \<Rightarrow> (addr \<Rightarrow> 8 word) \<Rightarrow> m61_state" where
  "init_state base m =
     \<lparr>active_allocations = [], gstats = init_stats,
      default_buffer = \<lparr>buffer = base, pos = 0, size_b = push_bit 20 8\<rparr>,
      mem = m, stdout_s = [], stderr_s = []\<rparr>"

subsection \<open>Formatting\<close>

text \<open>
  \<^verbatim>\<open>%zu\<close> and \<^verbatim>\<open>%d\<close> print decimal digits. \<^verbatim>\<open>%p\<close> is implementation-defined, so
  the functions that print a pointer take its formatter as the parameter \<open>fmt_p\<close>.
\<close>

definition digit_char :: "nat \<Rightarrow> char" where
  "digit_char d = char_of (48 + d)"

function fmt_zu :: "nat \<Rightarrow> string" where
  "fmt_zu n = (if n < 10 then [digit_char n] else fmt_zu (n div 10) @ [digit_char (n mod 10)])"
  by pat_completeness auto
termination
  by (relation "measure (\<lambda>n. n)") auto

declare fmt_zu.simps [simp del]

definition fmt_d :: "int \<Rightarrow> string" where
  "fmt_d i = (if i < 0 then CHR ''-'' # fmt_zu (nat (- i)) else fmt_zu (nat i))"

text \<open>The expression \<^verbatim>\<open>file ? file : "???"\<close>.\<close>

definition file_or_unknown :: "string option \<Rightarrow> string" where
  "file_or_unknown f = (case f of Some name \<Rightarrow> name | None \<Rightarrow> ''???'')"

subsection \<open>\<^verbatim>\<open>m61_malloc\<close>\<close>

text \<open>
  The result is the returned pointer and the new state. \<^verbatim>\<open>default_buffer.pos + sz\<close> is
  an addition of two \<^verbatim>\<open>size_t\<close> values, so it wraps; \<^verbatim>\<open>&buffer[pos]\<close> is the address
  \<open>buffer + pos\<close>.
\<close>

definition m61_malloc :: "size_t \<Rightarrow> string option \<Rightarrow> int \<Rightarrow> m61_state \<Rightarrow> addr \<times> m61_state" where
  "m61_malloc sz fl ln s =
     (let b = default_buffer s; g = gstats s in
      if sz = 0 \<or> pos b + sz > size_b b then
        (nullptr, s\<lparr>gstats := g\<lparr>nfail := nfail g + 1, fail_size := fail_size g + sz\<rparr>\<rparr>)
      else
        let p = buffer b + pos b;
            b' = b\<lparr>pos := pos b + sz\<rparr>;
            allocs = active_allocations s @ [\<lparr>ptr = p, size_a = sz, file_a = fl, line = ln\<rparr>];
            g1 = g\<lparr>ntotal := ntotal g + 1, total_size := total_size g + sz,
                   nactive := nactive g + 1, active_size := active_size g + sz\<rparr>;
            g2 = (if heap_min g1 = 0 \<or> p < heap_min g1 then g1\<lparr>heap_min := p\<rparr> else g1);
            g3 = (if p + sz - 1 > heap_max g2 then g2\<lparr>heap_max := p + sz - 1\<rparr> else g2)
        in (p, s\<lparr>default_buffer := b', active_allocations := allocs, gstats := g3\<rparr>))"

subsection \<open>\<^verbatim>\<open>m61_free\<close>\<close>

text \<open>
  The loop of \<^verbatim>\<open>m61_free\<close> over the vector: the first record whose \<^verbatim>\<open>ptr\<close> equals the
  argument is erased and returned with the remaining vector; \<open>None\<close> when the loop
  reaches the end.
\<close>

fun find_erase :: "addr \<Rightarrow> allocation_info list \<Rightarrow> (allocation_info \<times> allocation_info list) option" where
  "find_erase p [] = None"
| "find_erase p (a # as) =
     (if ptr a = p then Some (a, as)
      else (case find_erase p as of
              None \<Rightarrow> None
            | Some (r, as') \<Rightarrow> Some (r, a # as')))"

text \<open>The line that \<^verbatim>\<open>fprintf(stderr, ...)\<close> writes for a pointer that is not found.\<close>

definition invalid_free_msg :: "(addr \<Rightarrow> string) \<Rightarrow> addr \<Rightarrow> string option \<Rightarrow> int \<Rightarrow> string" where
  "invalid_free_msg fmt_p p fl ln =
     ''Invalid free or double free at '' @ file_or_unknown fl @ '':'' @ fmt_d ln
       @ '' for pointer '' @ fmt_p p @ [CHR 0x0A]"

definition m61_free :: "(addr \<Rightarrow> string) \<Rightarrow> addr \<Rightarrow> string option \<Rightarrow> int \<Rightarrow> m61_state \<Rightarrow> m61_state" where
  "m61_free fmt_p p fl ln s =
     (if p = nullptr then s
      else (case find_erase p (active_allocations s) of
              Some (a, as') \<Rightarrow>
                s\<lparr>gstats := (gstats s)\<lparr>nactive := nactive (gstats s) - 1,
                                        active_size := active_size (gstats s) - size_a a\<rparr>,
                  active_allocations := as'\<rparr>
            | None \<Rightarrow> s\<lparr>stderr_s := stderr_s s @ invalid_free_msg fmt_p p fl ln\<rparr>))"

subsection \<open>\<^verbatim>\<open>m61_calloc\<close>\<close>

text \<open>
  \<^verbatim>\<open>memset(p, c, n)\<close>: the \<open>n\<close> bytes from \<open>p\<close> on become \<open>c\<close>. The address \<open>a\<close> is
  one of them when its distance \<open>a - p\<close> from \<open>p\<close> is below \<open>n\<close>.
\<close>

definition memset :: "(addr \<Rightarrow> 8 word) \<Rightarrow> addr \<Rightarrow> 8 word \<Rightarrow> size_t \<Rightarrow> (addr \<Rightarrow> 8 word)" where
  "memset m p c n = (\<lambda>a. if a - p < n then c else m a)"

definition m61_calloc :: "size_t \<Rightarrow> size_t \<Rightarrow> string option \<Rightarrow> int \<Rightarrow> m61_state \<Rightarrow> addr \<times> m61_state" where
  "m61_calloc count sz fl ln s =
     (if count \<noteq> 0 \<and> sz > SIZE_MAX div count then
        (nullptr, s\<lparr>gstats := (gstats s)\<lparr>nfail := nfail (gstats s) + 1,
                                         fail_size := fail_size (gstats s) + count * sz\<rparr>\<rparr>)
      else
        let total_size = count * sz;
            (p, s') = m61_malloc total_size fl ln s
        in if p \<noteq> nullptr then (p, s'\<lparr>mem := memset (mem s') p 0 total_size\<rparr>) else (p, s'))"

subsection \<open>\<^verbatim>\<open>m61_print_leak_report\<close>\<close>

text \<open>The line that \<^verbatim>\<open>printf\<close> writes for one record.\<close>

definition leak_line :: "(addr \<Rightarrow> string) \<Rightarrow> allocation_info \<Rightarrow> string" where
  "leak_line fmt_p a =
     ''Leak Check: '' @ file_or_unknown (file_a a) @ '':'' @ fmt_d (line a)
       @ '': allocated object '' @ fmt_p (ptr a)
       @ '' with size '' @ fmt_zu (unat (size_a a)) @ [CHR 0x0A]"

text \<open>The range-for loop, with the text written so far as accumulator.\<close>

fun leak_loop :: "(addr \<Rightarrow> string) \<Rightarrow> allocation_info list \<Rightarrow> string \<Rightarrow> string" where
  "leak_loop fmt_p [] out = out"
| "leak_loop fmt_p (a # as) out = leak_loop fmt_p as (out @ leak_line fmt_p a)"

definition m61_print_leak_report :: "(addr \<Rightarrow> string) \<Rightarrow> m61_state \<Rightarrow> m61_state" where
  "m61_print_leak_report fmt_p s = s\<lparr>stdout_s := leak_loop fmt_p (active_allocations s) (stdout_s s)\<rparr>"

subsection \<open>Concrete parameters\<close>

text \<open>
  One implementation of \<^verbatim>\<open>%p\<close>, the one of glibc: \<^verbatim>\<open>(nil)\<close> for the null pointer and
  otherwise \<^verbatim>\<open>0x\<close> and the hexadecimal digits. An anonymous mapping reads as zero.
\<close>

definition hex_char :: "nat \<Rightarrow> char" where
  "hex_char d = (if d < 10 then char_of (48 + d) else char_of (87 + d))"

function fmt_x :: "nat \<Rightarrow> string" where
  "fmt_x n = (if n < 16 then [hex_char n] else fmt_x (n div 16) @ [hex_char (n mod 16)])"
  by pat_completeness auto
termination
  by (relation "measure (\<lambda>n. n)") auto

declare fmt_x.simps [simp del]

definition fmt_p_glibc :: "addr \<Rightarrow> string" where
  "fmt_p_glibc p = (if p = nullptr then ''(nil)'' else ''0x'' @ fmt_x (unat p))"

definition anon_mem :: "addr \<Rightarrow> 8 word" where
  "anon_mem = (\<lambda>a. 0)"

subsection \<open>The leak report as the specification words it\<close>

text \<open>
  The specification gives the line of a live record as
  \<^verbatim>\<open>file:line: allocated object <address> with size <size>\<close>. This definition follows
  those words, to be compared with \<open>leak_line\<close>, which follows the source.
\<close>

definition spec_leak_line :: "(addr \<Rightarrow> string) \<Rightarrow> allocation_info \<Rightarrow> string" where
  "spec_leak_line fmt_p a =
     file_or_unknown (file_a a) @ '':'' @ fmt_d (line a)
       @ '': allocated object '' @ fmt_p (ptr a)
       @ '' with size '' @ fmt_zu (unat (size_a a)) @ [CHR 0x0A]"

subsection \<open>Sequences of calls\<close>

text \<open>
  A client of the allocator is a list of calls, run from left to right. A call of
  \<^verbatim>\<open>m61_malloc\<close> or \<^verbatim>\<open>m61_calloc\<close> is successful when the pointer it returns is not
  null; a call of \<^verbatim>\<open>m61_free\<close> is successful when its argument is not null and the loop
  finds a record for it.
\<close>

datatype call =
    Malloc size_t "string option" int
  | Calloc size_t size_t "string option" int
  | Free addr "string option" int

fun returned :: "call \<Rightarrow> m61_state \<Rightarrow> addr" where
  "returned (Malloc sz fl ln) s = fst (m61_malloc sz fl ln s)"
| "returned (Calloc n sz fl ln) s = fst (m61_calloc n sz fl ln s)"
| "returned (Free p fl ln) s = nullptr"

fun step :: "(addr \<Rightarrow> string) \<Rightarrow> call \<Rightarrow> m61_state \<Rightarrow> m61_state" where
  "step fmt_p (Malloc sz fl ln) s = snd (m61_malloc sz fl ln s)"
| "step fmt_p (Calloc n sz fl ln) s = snd (m61_calloc n sz fl ln s)"
| "step fmt_p (Free p fl ln) s = m61_free fmt_p p fl ln s"

fun run :: "(addr \<Rightarrow> string) \<Rightarrow> call list \<Rightarrow> m61_state \<Rightarrow> m61_state" where
  "run fmt_p [] s = s"
| "run fmt_p (c # cs) s = run fmt_p cs (step fmt_p c s)"

fun alloc_ok :: "call \<Rightarrow> m61_state \<Rightarrow> bool" where
  "alloc_ok (Free p fl ln) s = False"
| "alloc_ok c s = (returned c s \<noteq> nullptr)"

fun free_ok :: "call \<Rightarrow> m61_state \<Rightarrow> bool" where
  "free_ok (Free p fl ln) s = (p \<noteq> nullptr \<and> find_erase p (active_allocations s) \<noteq> None)"
| "free_ok c s = False"

text \<open>The numbers of successful allocations and of successful releases of a run.\<close>

fun n_alloc_ok :: "(addr \<Rightarrow> string) \<Rightarrow> call list \<Rightarrow> m61_state \<Rightarrow> nat" where
  "n_alloc_ok fmt_p [] s = 0"
| "n_alloc_ok fmt_p (c # cs) s =
     (if alloc_ok c s then 1 else 0) + n_alloc_ok fmt_p cs (step fmt_p c s)"

fun n_free_ok :: "(addr \<Rightarrow> string) \<Rightarrow> call list \<Rightarrow> m61_state \<Rightarrow> nat" where
  "n_free_ok fmt_p [] s = 0"
| "n_free_ok fmt_p (c # cs) s =
     (if free_ok c s then 1 else 0) + n_free_ok fmt_p cs (step fmt_p c s)"

text \<open>The size that a call hands to \<^verbatim>\<open>m61_malloc\<close>.\<close>

fun call_size :: "call \<Rightarrow> size_t" where
  "call_size (Malloc sz fl ln) = sz"
| "call_size (Calloc n sz fl ln) = n * sz"
| "call_size (Free p fl ln) = 0"

subsection \<open>Invariants\<close>

text \<open>
  The buffer is a region that \<^verbatim>\<open>mmap\<close> can return (it does not start at address 0 and
  does not reach the end of the address space), and the position is within it.
\<close>

definition buffer_ok :: "m61_state \<Rightarrow> bool" where
  "buffer_ok s =
     (buffer (default_buffer s) \<noteq> nullptr
      \<and> unat (buffer (default_buffer s)) + unat (size_b (default_buffer s)) < 2 ^ 64
      \<and> pos (default_buffer s) \<le> size_b (default_buffer s))"

text \<open>
  Two records are apart when their byte ranges, as ranges of natural numbers, do not
  meet. In a well-formed vector no range runs past the end of the address space and
  the ranges are pairwise apart.
\<close>

definition apart :: "allocation_info \<Rightarrow> allocation_info \<Rightarrow> bool" where
  "apart a b =
     (unat (ptr a) + unat (size_a a) \<le> unat (ptr b)
      \<or> unat (ptr b) + unat (size_a b) \<le> unat (ptr a))"

fun disjoint_ranges :: "allocation_info list \<Rightarrow> bool" where
  "disjoint_ranges [] = True"
| "disjoint_ranges (a # as) = (list_all (apart a) as \<and> disjoint_ranges as)"

definition registry_ok :: "allocation_info list \<Rightarrow> bool" where
  "registry_ok as =
     (list_all (\<lambda>a. unat (ptr a) + unat (size_a a) \<le> 2 ^ 64) as \<and> disjoint_ranges as)"

text \<open>A record lies in the part of the buffer that has been handed out.\<close>

definition in_arena :: "m61_memory_buffer \<Rightarrow> allocation_info \<Rightarrow> bool" where
  "in_arena b a =
     (unat (buffer b) \<le> unat (ptr a)
      \<and> unat (ptr a) + unat (size_a a) \<le> unat (buffer b) + unat (pos b))"

definition arena_inv :: "m61_state \<Rightarrow> bool" where
  "arena_inv s =
     (buffer_ok s
      \<and> list_all (in_arena (default_buffer s)) (active_allocations s)
      \<and> disjoint_ranges (active_allocations s))"

section \<open>Lemmas\<close>

subsection \<open>Words\<close>

lemma unat64_bound: "unat (x :: 64 word) < 2 ^ 64"
  using unsigned_less [of x, where ?'a = nat] by simp

lemma unat_add_nowrap:
  fixes a b :: "64 word"
  shows "unat a + unat b < 2 ^ 64 \<Longrightarrow> unat (a + b) = unat a + unat b"
  by (simp add: unat_add_lem [THEN iffD1])

lemma base_plus_pos_nonnull:
  fixes base p :: addr
  assumes "base \<noteq> 0" and "unat base + unat p < 2 ^ 64"
  shows "base + p \<noteq> 0"
proof -
  have "unat (base + p) = unat base + unat p"
    using assms(2) by (rule unat_add_nowrap)
  moreover have "0 < unat base" using assms(1) by (simp add: unat_gt_0)
  ultimately show ?thesis by (metis add_gr_0 unat_gt_0)
qed

text \<open>
  The guard of \<^verbatim>\<open>m61_calloc\<close>, \<^verbatim>\<open>sz > SIZE_MAX / count\<close>, holds exactly when the product
  of the two numbers does not fit in 64 bits.
\<close>

lemma overflow_guard_iff:
  fixes count sz :: size_t
  assumes "count \<noteq> 0"
  shows "(SIZE_MAX div count < sz) = (2 ^ 64 \<le> unat count * unat sz)"
proof -
  have c: "0 < unat count" using assms by (simp add: unat_gt_0)
  have "unat (SIZE_MAX div count) = (2 ^ 64 - 1) div unat count"
    by (simp add: unat_div unsigned_minus_1_eq_mask mask_eq_exp_minus_1)
  then have "(SIZE_MAX div count < sz) = ((2 ^ 64 - 1) div unat count < unat sz)"
    by (simp add: word_less_nat_alt)
  also have "\<dots> = (2 ^ 64 - 1 < unat sz * unat count)"
    using c by (simp add: div_less_iff_less_mult)
  also have "\<dots> = (2 ^ 64 \<le> unat count * unat sz)"
    by (auto simp: mult.commute)
  finally show ?thesis .
qed

subsection \<open>The operations\<close>

lemma malloc_fits:
  assumes "sz \<noteq> 0"
    and "unat (pos (default_buffer s)) + unat sz \<le> unat (size_b (default_buffer s))"
  shows "\<not> (sz = 0 \<or> size_b (default_buffer s) < pos (default_buffer s) + sz)"
proof -
  have "unat (pos (default_buffer s)) + unat sz < 2 ^ 64"
    using assms(2) unat64_bound [of "size_b (default_buffer s)"] by linarith
  then have "unat (pos (default_buffer s) + sz) = unat (pos (default_buffer s)) + unat sz"
    by (rule unat_add_nowrap)
  then show ?thesis using assms by (simp add: word_less_nat_alt)
qed

lemma memset_inside: "unat k < unat n \<Longrightarrow> memset m p c n (p + k) = c"
  by (simp add: memset_def word_less_nat_alt)

lemma find_erase_None: "(find_erase p as = None) = (p \<notin> ptr ` set as)"
  by (induction as) (auto split: option.splits)

lemma find_erase_Some_distinct:
  "find_erase p as = Some (a, as') \<Longrightarrow> distinct (map ptr as) \<Longrightarrow> p \<notin> ptr ` set as'"
  by (induction as arbitrary: as') (auto split: if_splits option.splits)

lemma fmt_p_glibc_4096: "fmt_p_glibc 4096 = ''0x1000''"
  by code_simp

lemma leak_loop_eq: "leak_loop fmt_p as out = out @ concat (map (leak_line fmt_p) as)"
  by (induction as arbitrary: out) simp_all

subsection \<open>The two paths of \<^verbatim>\<open>m61_malloc\<close>\<close>

text \<open>
  When the test of the source holds, the call fails and only counts the failure;
  otherwise it hands out \<open>buffer + pos\<close>. With a buffer that \<^verbatim>\<open>mmap\<close> returned, the
  pointer handed out is not null, so the caller sees which path was taken.
\<close>

lemma malloc_fail:
  "sz = 0 \<or> size_b (default_buffer s) < pos (default_buffer s) + sz \<Longrightarrow>
   m61_malloc sz fl ln s =
     (nullptr, s\<lparr>gstats := (gstats s)\<lparr>nfail := nfail (gstats s) + 1,
                                      fail_size := fail_size (gstats s) + sz\<rparr>\<rparr>)"
  by (simp add: m61_malloc_def Let_def)

lemma malloc_success:
  assumes "\<not> (sz = 0 \<or> size_b (default_buffer s) < pos (default_buffer s) + sz)"
  shows "fst (m61_malloc sz fl ln s) = buffer (default_buffer s) + pos (default_buffer s)"
    and "active_allocations (snd (m61_malloc sz fl ln s)) = active_allocations s @
           [\<lparr>ptr = buffer (default_buffer s) + pos (default_buffer s), size_a = sz, file_a = fl, line = ln\<rparr>]"
    and "default_buffer (snd (m61_malloc sz fl ln s)) = (default_buffer s)\<lparr>pos := pos (default_buffer s) + sz\<rparr>"
    and "nactive (gstats (snd (m61_malloc sz fl ln s))) = nactive (gstats s) + 1"
    and "active_size (gstats (snd (m61_malloc sz fl ln s))) = active_size (gstats s) + sz"
    and "nfail (gstats (snd (m61_malloc sz fl ln s))) = nfail (gstats s)"
    and "fail_size (gstats (snd (m61_malloc sz fl ln s))) = fail_size (gstats s)"
    and "mem (snd (m61_malloc sz fl ln s)) = mem s"
    and "stdout_s (snd (m61_malloc sz fl ln s)) = stdout_s s"
    and "stderr_s (snd (m61_malloc sz fl ln s)) = stderr_s s"
  using assms by (simp_all add: m61_malloc_def Let_def)

lemma buffer_ok_nonnull:
  assumes "buffer_ok s"
  shows "buffer (default_buffer s) + pos (default_buffer s) \<noteq> nullptr"
proof (rule base_plus_pos_nonnull)
  show "buffer (default_buffer s) \<noteq> 0" using assms by (simp add: buffer_ok_def)
  have "unat (pos (default_buffer s)) \<le> unat (size_b (default_buffer s))"
    using assms by (simp add: buffer_ok_def word_le_nat_alt)
  then show "unat (buffer (default_buffer s)) + unat (pos (default_buffer s)) < 2 ^ 64"
    using assms by (simp add: buffer_ok_def)
qed

lemma malloc_returns_nonnull_iff:
  assumes "buffer_ok s"
  shows "(fst (m61_malloc sz fl ln s) \<noteq> nullptr) =
         (\<not> (sz = 0 \<or> size_b (default_buffer s) < pos (default_buffer s) + sz))"
proof (cases "sz = 0 \<or> size_b (default_buffer s) < pos (default_buffer s) + sz")
  case True
  then show ?thesis by (simp add: malloc_fail)
next
  case False
  then show ?thesis using buffer_ok_nonnull [OF assms] by (simp add: malloc_success(1))
qed

subsection \<open>The counters follow the vector\<close>

text \<open>
  Each call changes the length of the vector, \<^verbatim>\<open>nactive\<close> and \<^verbatim>\<open>active_size\<close> together:
  by one record and its size on a successful allocation or release, not at all
  otherwise. The position stays within the buffer on every path.
\<close>

lemma find_erase_Some:
  "find_erase p as = Some (a, as') \<Longrightarrow>
     ptr a = p \<and> a \<in> set as \<and> length as = Suc (length as')
     \<and> sum_list (map size_a as) = size_a a + sum_list (map size_a as')"
  by (induction as arbitrary: as') (auto split: if_splits option.splits)

lemma malloc_buffer_ok:
  assumes "buffer_ok s"
  shows "buffer_ok (snd (m61_malloc sz fl ln s))"
proof (cases "sz = 0 \<or> size_b (default_buffer s) < pos (default_buffer s) + sz")
  case True
  then show ?thesis using assms by (simp add: malloc_fail buffer_ok_def)
next
  case False
  then have "pos (default_buffer s) + sz \<le> size_b (default_buffer s)" by (simp add: not_less)
  then show ?thesis using assms False by (simp add: malloc_success(3) buffer_ok_def)
qed

lemma malloc_tracks:
  assumes "buffer_ok s"
  shows "length (active_allocations (snd (m61_malloc sz fl ln s)))
           = length (active_allocations s) + (if fst (m61_malloc sz fl ln s) \<noteq> nullptr then 1 else 0)"
    and "nactive (gstats (snd (m61_malloc sz fl ln s)))
           = nactive (gstats s) + (if fst (m61_malloc sz fl ln s) \<noteq> nullptr then 1 else 0)"
    and "active_size (gstats (snd (m61_malloc sz fl ln s)))
             - sum_list (map size_a (active_allocations (snd (m61_malloc sz fl ln s))))
           = active_size (gstats s) - sum_list (map size_a (active_allocations s))"
proof -
  show "length (active_allocations (snd (m61_malloc sz fl ln s)))
           = length (active_allocations s) + (if fst (m61_malloc sz fl ln s) \<noteq> nullptr then 1 else 0)"
    unfolding malloc_returns_nonnull_iff [OF assms]
    by (cases "sz = 0 \<or> size_b (default_buffer s) < pos (default_buffer s) + sz")
       (simp_all add: malloc_fail malloc_success(2))
  show "nactive (gstats (snd (m61_malloc sz fl ln s)))
           = nactive (gstats s) + (if fst (m61_malloc sz fl ln s) \<noteq> nullptr then 1 else 0)"
    unfolding malloc_returns_nonnull_iff [OF assms]
    by (cases "sz = 0 \<or> size_b (default_buffer s) < pos (default_buffer s) + sz")
       (simp_all add: malloc_fail malloc_success(4))
  show "active_size (gstats (snd (m61_malloc sz fl ln s)))
             - sum_list (map size_a (active_allocations (snd (m61_malloc sz fl ln s))))
           = active_size (gstats s) - sum_list (map size_a (active_allocations s))"
    by (cases "sz = 0 \<or> size_b (default_buffer s) < pos (default_buffer s) + sz")
       (simp_all add: malloc_fail malloc_success(2,5))
qed

lemma calloc_as_malloc:
  "\<not> (n \<noteq> 0 \<and> SIZE_MAX div n < sz) \<Longrightarrow>
     fst (m61_calloc n sz fl ln s) = fst (m61_malloc (n * sz) fl ln s)
   \<and> active_allocations (snd (m61_calloc n sz fl ln s)) = active_allocations (snd (m61_malloc (n * sz) fl ln s))
   \<and> gstats (snd (m61_calloc n sz fl ln s)) = gstats (snd (m61_malloc (n * sz) fl ln s))
   \<and> default_buffer (snd (m61_calloc n sz fl ln s)) = default_buffer (snd (m61_malloc (n * sz) fl ln s))"
  by (cases "m61_malloc (n * sz) fl ln s") (auto simp: m61_calloc_def Let_def)

lemma calloc_guard_fires:
  "n \<noteq> 0 \<and> SIZE_MAX div n < sz \<Longrightarrow>
     m61_calloc n sz fl ln s =
       (nullptr, s\<lparr>gstats := (gstats s)\<lparr>nfail := nfail (gstats s) + 1,
                                        fail_size := fail_size (gstats s) + n * sz\<rparr>\<rparr>)"
  by (simp add: m61_calloc_def)

lemma step_buffer_ok:
  assumes "buffer_ok s"
  shows "buffer_ok (step fmt_p c s)"
proof (cases c)
  case (Malloc sz fl ln)
  then show ?thesis using malloc_buffer_ok [OF assms] by simp
next
  case (Calloc n sz fl ln)
  show ?thesis
  proof (cases "n \<noteq> 0 \<and> SIZE_MAX div n < sz")
    case True
    then show ?thesis using assms Calloc by (simp add: calloc_guard_fires buffer_ok_def)
  next
    case False
    then show ?thesis
      using malloc_buffer_ok [OF assms, of "n * sz" fl ln] Calloc calloc_as_malloc [OF False, of fl ln s]
      by (simp add: buffer_ok_def)
  qed
next
  case (Free p fl ln)
  then show ?thesis using assms
    by (auto simp: m61_free_def buffer_ok_def split: option.splits)
qed

lemma step_tracks:
  assumes "buffer_ok s"
  shows "length (active_allocations (step fmt_p c s)) + (if free_ok c s then 1 else 0)
           = length (active_allocations s) + (if alloc_ok c s then 1 else 0)"
    and "nactive (gstats (step fmt_p c s)) + (if free_ok c s then 1 else 0)
           = nactive (gstats s) + (if alloc_ok c s then 1 else 0)"
    and "active_size (gstats (step fmt_p c s)) - sum_list (map size_a (active_allocations (step fmt_p c s)))
           = active_size (gstats s) - sum_list (map size_a (active_allocations s))"
proof (atomize (full), cases c)
  case (Malloc sz fl ln)
  then show "(length (active_allocations (step fmt_p c s)) + (if free_ok c s then 1 else 0)
           = length (active_allocations s) + (if alloc_ok c s then 1 else 0))
    \<and> (nactive (gstats (step fmt_p c s)) + (if free_ok c s then 1 else 0)
           = nactive (gstats s) + (if alloc_ok c s then 1 else 0))
    \<and> (active_size (gstats (step fmt_p c s)) - sum_list (map size_a (active_allocations (step fmt_p c s)))
           = active_size (gstats s) - sum_list (map size_a (active_allocations s)))"
    using malloc_tracks [OF assms, of sz fl ln] by simp
next
  case (Calloc n sz fl ln)
  show "(length (active_allocations (step fmt_p c s)) + (if free_ok c s then 1 else 0)
           = length (active_allocations s) + (if alloc_ok c s then 1 else 0))
    \<and> (nactive (gstats (step fmt_p c s)) + (if free_ok c s then 1 else 0)
           = nactive (gstats s) + (if alloc_ok c s then 1 else 0))
    \<and> (active_size (gstats (step fmt_p c s)) - sum_list (map size_a (active_allocations (step fmt_p c s)))
           = active_size (gstats s) - sum_list (map size_a (active_allocations s)))"
  proof (cases "n \<noteq> 0 \<and> SIZE_MAX div n < sz")
    case True
    then show ?thesis using Calloc by (simp add: calloc_guard_fires)
  next
    case False
    then show ?thesis
      using malloc_tracks [OF assms, of "n * sz" fl ln] Calloc calloc_as_malloc [OF False, of fl ln s]
      by simp
  qed
next
  case (Free p fl ln)
  show "(length (active_allocations (step fmt_p c s)) + (if free_ok c s then 1 else 0)
           = length (active_allocations s) + (if alloc_ok c s then 1 else 0))
    \<and> (nactive (gstats (step fmt_p c s)) + (if free_ok c s then 1 else 0)
           = nactive (gstats s) + (if alloc_ok c s then 1 else 0))
    \<and> (active_size (gstats (step fmt_p c s)) - sum_list (map size_a (active_allocations (step fmt_p c s)))
           = active_size (gstats s) - sum_list (map size_a (active_allocations s)))"
  proof (cases "p \<noteq> nullptr \<and> find_erase p (active_allocations s) \<noteq> None")
    case False
    then show ?thesis using Free by (cases "find_erase p (active_allocations s)") (auto simp: m61_free_def)
  next
    case True
    then obtain a as' where f: "find_erase p (active_allocations s) = Some (a, as')" by auto
    from find_erase_Some [OF f] True f Free show ?thesis
      by (simp add: m61_free_def)
  qed
qed

lemma run_tracks:
  "buffer_ok s \<Longrightarrow>
     length (active_allocations (run fmt_p cs s)) + n_free_ok fmt_p cs s
       = length (active_allocations s) + n_alloc_ok fmt_p cs s
   \<and> nactive (gstats (run fmt_p cs s)) + of_nat (n_free_ok fmt_p cs s)
       = nactive (gstats s) + of_nat (n_alloc_ok fmt_p cs s)
   \<and> active_size (gstats (run fmt_p cs s)) - sum_list (map size_a (active_allocations (run fmt_p cs s)))
       = active_size (gstats s) - sum_list (map size_a (active_allocations s))"
proof (induction cs arbitrary: s)
  case Nil
  then show ?case by simp
next
  case (Cons c cs)
  note ih = Cons.IH [OF step_buffer_ok [OF Cons.prems, of fmt_p c]]
  note st = step_tracks [OF Cons.prems, of fmt_p c]
  have "length (active_allocations (run fmt_p (c # cs) s)) + n_free_ok fmt_p (c # cs) s
       = length (active_allocations s) + n_alloc_ok fmt_p (c # cs) s"
    using ih st(1) by simp
  moreover have "nactive (gstats (run fmt_p (c # cs) s)) + of_nat (n_free_ok fmt_p (c # cs) s)
       = nactive (gstats s) + of_nat (n_alloc_ok fmt_p (c # cs) s)"
  proof -
    let ?f = "(if free_ok c s then 1 else 0) :: 64 word"
    let ?a = "(if alloc_ok c s then 1 else 0) :: 64 word"
    have "nactive (gstats (run fmt_p cs (step fmt_p c s))) + of_nat (n_free_ok fmt_p cs (step fmt_p c s)) + ?f
        = nactive (gstats (step fmt_p c s)) + ?f + of_nat (n_alloc_ok fmt_p cs (step fmt_p c s))"
      using ih by (simp add: algebra_simps)
    also have "\<dots> = nactive (gstats s) + ?a + of_nat (n_alloc_ok fmt_p cs (step fmt_p c s))"
      using st(2) by simp
    finally show ?thesis
      by (cases "free_ok c s"; cases "alloc_ok c s") (simp_all add: algebra_simps)
  qed
  moreover have "active_size (gstats (run fmt_p (c # cs) s))
         - sum_list (map size_a (active_allocations (run fmt_p (c # cs) s)))
       = active_size (gstats s) - sum_list (map size_a (active_allocations s))"
    using ih st(3) by simp
  ultimately show ?case by blast
qed

lemma unat_sum_list:
  fixes ws :: "64 word list"
  shows "unat (sum_list ws) = sum_list (map unat ws) mod 2 ^ 64"
proof (induction ws)
  case Nil
  show ?case by simp
next
  case (Cons w ws)
  have "unat (w + sum_list ws) = (unat w + unat (sum_list ws)) mod 2 ^ 64"
    by (simp add: unat_word_ariths)
  also have "\<dots> = (unat w + sum_list (map unat ws)) mod 2 ^ 64"
    by (simp add: Cons.IH mod_add_right_eq)
  finally show ?case by simp
qed

lemma init_buffer_ok:
  "base \<noteq> nullptr \<Longrightarrow> unat base + 2 ^ 23 < 2 ^ 64 \<Longrightarrow> buffer_ok (init_state base m)"
  by (simp add: buffer_ok_def init_state_def)

subsection \<open>Byte ranges\<close>

text \<open>
  As long as no request makes \<^verbatim>\<open>pos + sz\<close> wrap, every record lies in the part of the
  buffer handed out so far and the records are pairwise apart: a new record starts
  where the others end, and a release only removes a record.
\<close>

lemma apart_sym: "apart a b = apart b a"
  by (auto simp: apart_def)

lemma disjoint_ranges_apart:
  "disjoint_ranges as \<Longrightarrow> a \<in> set as \<Longrightarrow> b \<in> set as \<Longrightarrow> ptr a \<noteq> ptr b \<Longrightarrow> apart a b"
proof (induction as)
  case Nil
  then show ?case by simp
next
  case (Cons x xs)
  then show ?case
    by (auto simp: list_all_iff apart_sym [of _ x])
qed

lemma disjoint_ranges_snoc:
  "disjoint_ranges (as @ [r]) = (disjoint_ranges as \<and> list_all (\<lambda>a. apart a r) as)"
  by (induction as) auto

lemma find_erase_list_all:
  "find_erase p as = Some (a, as') \<Longrightarrow> list_all P as \<Longrightarrow> list_all P as'"
  by (induction as arbitrary: as') (auto split: if_splits option.splits)

lemma find_erase_disjoint:
  "find_erase p as = Some (a, as') \<Longrightarrow> disjoint_ranges as \<Longrightarrow> disjoint_ranges as'"
proof (induction as arbitrary: as')
  case Nil
  then show ?case by simp
next
  case (Cons x xs)
  show ?case
  proof (cases "ptr x = p")
    case True
    then show ?thesis using Cons.prems by auto
  next
    case False
    then obtain ys where f: "find_erase p xs = Some (a, ys)" and as': "as' = x # ys"
      using Cons.prems(1) by (auto split: option.splits)
    have "list_all (apart x) ys"
      using find_erase_list_all [OF f] Cons.prems(2) by simp
    moreover have "disjoint_ranges ys"
      using Cons.IH [OF f] Cons.prems(2) by simp
    ultimately show ?thesis by (simp add: as')
  qed
qed

lemma arena_inv_registry_ok:
  assumes "arena_inv s"
  shows "registry_ok (active_allocations s)"
proof -
  have b: "unat (buffer (default_buffer s)) + unat (pos (default_buffer s)) < 2 ^ 64"
    using assms by (simp add: arena_inv_def buffer_ok_def word_le_nat_alt)
  have "list_all (\<lambda>a. unat (ptr a) + unat (size_a a) \<le> 2 ^ 64) (active_allocations s)"
    using assms b by (auto simp: arena_inv_def list_all_iff in_arena_def)
  then show ?thesis using assms by (simp add: registry_ok_def arena_inv_def)
qed

lemma malloc_arena_inv:
  assumes inv: "arena_inv s"
    and nowrap: "unat (pos (default_buffer s)) + unat sz < 2 ^ 64"
  shows "arena_inv (snd (m61_malloc sz fl ln s))"
proof (cases "sz = 0 \<or> size_b (default_buffer s) < pos (default_buffer s) + sz")
  case True
  then show ?thesis using inv by (simp add: malloc_fail arena_inv_def buffer_ok_def)
next
  case False
  let ?b = "default_buffer s"
  let ?s' = "snd (m61_malloc sz fl ln s)"
  let ?r = "\<lparr>ptr = buffer ?b + pos ?b, size_a = sz, file_a = fl, line = ln\<rparr>"
  have bok: "buffer_ok s" using inv by (simp add: arena_inv_def)
  have pos': "unat (pos ?b + sz) = unat (pos ?b) + unat sz"
    using nowrap by (rule unat_add_nowrap)
  have ple: "unat (pos ?b) \<le> unat (size_b ?b)"
    using bok by (simp add: buffer_ok_def word_le_nat_alt)
  have p: "unat (buffer ?b + pos ?b) = unat (buffer ?b) + unat (pos ?b)"
    using bok ple by (intro unat_add_nowrap) (simp add: buffer_ok_def)
  have old: "list_all (in_arena (?b\<lparr>pos := pos ?b + sz\<rparr>)) (active_allocations s)"
    using inv pos' by (auto simp: arena_inv_def list_all_iff in_arena_def)
  have new: "in_arena (?b\<lparr>pos := pos ?b + sz\<rparr>) ?r"
    using p pos' by (simp add: in_arena_def)
  have ap: "list_all (\<lambda>a. apart a ?r) (active_allocations s)"
    using inv p by (auto simp: arena_inv_def list_all_iff in_arena_def apart_def)
  have "buffer_ok ?s'" using bok by (rule malloc_buffer_ok)
  moreover have "list_all (in_arena (default_buffer ?s')) (active_allocations ?s')"
    using old new False by (simp add: malloc_success(2,3))
  moreover have "disjoint_ranges (active_allocations ?s')"
    using inv ap False by (simp add: malloc_success(2) disjoint_ranges_snoc arena_inv_def)
  ultimately show ?thesis by (simp add: arena_inv_def)
qed

lemma free_arena_inv:
  assumes "arena_inv s"
  shows "arena_inv (m61_free fmt_p p fl ln s)"
proof (cases "p \<noteq> nullptr \<and> find_erase p (active_allocations s) \<noteq> None")
  case False
  then show ?thesis using assms
    by (cases "find_erase p (active_allocations s)") (auto simp: m61_free_def arena_inv_def buffer_ok_def)
next
  case True
  then obtain a as' where f: "find_erase p (active_allocations s) = Some (a, as')" by auto
  have "list_all (in_arena (default_buffer s)) as'"
    using find_erase_list_all [OF f] assms by (simp add: arena_inv_def)
  moreover have "disjoint_ranges as'"
    using find_erase_disjoint [OF f] assms by (simp add: arena_inv_def)
  ultimately show ?thesis using assms True f
    by (simp add: m61_free_def arena_inv_def buffer_ok_def)
qed

lemma step_arena_inv:
  assumes inv: "arena_inv s"
    and sane: "unat (call_size c) + unat (size_b (default_buffer s)) < 2 ^ 64"
  shows "arena_inv (step fmt_p c s)"
proof -
  have ple: "unat (pos (default_buffer s)) \<le> unat (size_b (default_buffer s))"
    using inv by (simp add: arena_inv_def buffer_ok_def word_le_nat_alt)
  show ?thesis
  proof (cases c)
    case (Malloc sz fl ln)
    then show ?thesis using malloc_arena_inv [OF inv, of sz fl ln] sane ple by simp
  next
    case (Calloc n sz fl ln)
    show ?thesis
    proof (cases "n \<noteq> 0 \<and> SIZE_MAX div n < sz")
      case True
      then show ?thesis using inv Calloc by (simp add: calloc_guard_fires arena_inv_def buffer_ok_def)
    next
      case False
      have "arena_inv (snd (m61_malloc (n * sz) fl ln s))"
        using malloc_arena_inv [OF inv, of "n * sz" fl ln] sane ple Calloc by simp
      then show ?thesis
        using Calloc calloc_as_malloc [OF False, of fl ln s]
        by (simp add: arena_inv_def buffer_ok_def)
    qed
  next
    case (Free p fl ln)
    then show ?thesis using free_arena_inv [OF inv] by simp
  qed
qed

lemma step_size_b:
  "size_b (default_buffer (step fmt_p c s)) = size_b (default_buffer s)"
proof (cases c)
  case (Malloc sz fl ln)
  then show ?thesis by (simp add: m61_malloc_def Let_def)
next
  case (Calloc n sz fl ln)
  then show ?thesis
    by (cases "m61_malloc (n * sz) fl ln s")
       (auto simp: m61_calloc_def m61_malloc_def Let_def split: if_splits)
next
  case (Free p fl ln)
  then show ?thesis by (auto simp: m61_free_def split: option.splits)
qed

lemma run_arena_inv:
  "arena_inv s \<Longrightarrow>
   list_all (\<lambda>c. unat (call_size c) + unat (size_b (default_buffer s)) < 2 ^ 64) cs \<Longrightarrow>
   arena_inv (run fmt_p cs s)"
proof (induction cs arbitrary: s)
  case Nil
  then show ?case by simp
next
  case (Cons c cs)
  have "arena_inv (step fmt_p c s)"
    using Cons.prems by (intro step_arena_inv) simp_all
  moreover have "list_all (\<lambda>c'. unat (call_size c') + unat (size_b (default_buffer (step fmt_p c s))) < 2 ^ 64) cs"
    using Cons.prems(2) by (simp add: step_size_b)
  ultimately show ?case using Cons.IH by simp
qed

lemma run_buffer_ok: "buffer_ok s \<Longrightarrow> buffer_ok (run fmt_p cs s)"
  by (induction cs arbitrary: s) (simp_all add: step_buffer_ok)

lemma init_arena_inv:
  "base \<noteq> nullptr \<Longrightarrow> unat base + 2 ^ 23 < 2 ^ 64 \<Longrightarrow> arena_inv (init_state base m)"
  using init_buffer_ok [of base m] by (simp add: arena_inv_def init_state_def)

subsection \<open>Evaluations\<close>

text \<open>
  The first allocation of one byte on a fresh allocator at address 4096; and the
  allocator filled up to its last byte, where a request of 2 bytes fails and only
  counts the failure.
\<close>

lemma malloc_1_state:
  "m61_malloc 1 None 0 (init_state 4096 anon_mem) =
     (4096, \<lparr>active_allocations = [\<lparr>ptr = 4096, size_a = 1, file_a = None, line = 0\<rparr>],
        gstats = \<lparr>nactive = 1, active_size = 1, ntotal = 1, total_size = 1,
                  nfail = 0, fail_size = 0, heap_min = 4096, heap_max = 4096\<rparr>,
        default_buffer = \<lparr>buffer = 4096, pos = 1, size_b = 8388608\<rparr>,
        mem = anon_mem, stdout_s = [], stderr_s = []\<rparr>)"
  by (simp add: m61_malloc_def init_state_def init_stats_def Let_def)

lemma malloc_exhausted_example:
  "fst (m61_malloc 8388607 None 0 (init_state 4096 anon_mem)) = 4096
   \<and> m61_malloc 2 None 1 (snd (m61_malloc 8388607 None 0 (init_state 4096 anon_mem)))
      = (nullptr, (snd (m61_malloc 8388607 None 0 (init_state 4096 anon_mem)))
           \<lparr>gstats := (gstats (snd (m61_malloc 8388607 None 0 (init_state 4096 anon_mem))))
               \<lparr>nfail := 1, fail_size := 2\<rparr>\<rparr>)"
  by (simp add: m61_malloc_def init_state_def init_stats_def Let_def)

text \<open>A release of a non-null pointer changes the vector exactly when a record starts there.\<close>

lemma free_changes_vector_iff:
  assumes "q \<noteq> nullptr"
  shows "(active_allocations (m61_free fmt_p q fl ln s) \<noteq> active_allocations s)
           = (q \<in> ptr ` set (active_allocations s))"
proof (cases "find_erase q (active_allocations s)")
  case None
  then have "active_allocations (m61_free fmt_p q fl ln s) = active_allocations s"
    using assms by (simp add: m61_free_def)
  moreover have "q \<notin> ptr ` set (active_allocations s)"
    using None by (simp add: find_erase_None)
  ultimately show ?thesis by simp
next
  case (Some r)
  then obtain a as' where f: "find_erase q (active_allocations s) = Some (a, as')"
    by (cases r) simp
  have "length (active_allocations s) = Suc (length as')"
    using find_erase_Some [OF f] by simp
  then have "as' \<noteq> active_allocations s" by auto
  moreover have "q \<in> ptr ` set (active_allocations s)"
    using find_erase_Some [OF f] by auto
  ultimately show ?thesis using assms f by (simp add: m61_free_def)
qed

section \<open>What holds of every run, and of runs in which no request wraps\<close>

text \<open>
  Run any list of calls on a fresh allocator whose buffer \<^verbatim>\<open>mmap\<close> returned, and let
  \<open>na\<close> and \<open>nf\<close> be the numbers of successful allocations and of successful releases.
  Then the vector holds \<open>na - nf\<close> records, and \<^verbatim>\<open>nactive\<close> and \<^verbatim>\<open>active_size\<close> are
  \<open>na - nf\<close> and the sum of the sizes of the records in the arithmetic of 64-bit
  counters, that is modulo \<open>2^64\<close>. They are these numbers themselves only when the
  numbers are below \<open>2^64\<close>, which a run with a wrapping request does not ensure.
\<close>

lemma stats_track_registry:
  fixes fmt_p :: "addr \<Rightarrow> string" and cs :: "call list" and base :: addr and m :: "addr \<Rightarrow> 8 word"
  assumes "base \<noteq> nullptr" and "unat base + 2 ^ 23 < 2 ^ 64"
  defines "s \<equiv> run fmt_p cs (init_state base m)"
    and "na \<equiv> n_alloc_ok fmt_p cs (init_state base m)"
    and "nf \<equiv> n_free_ok fmt_p cs (init_state base m)"
  shows "nf \<le> na
       \<and> length (active_allocations s) = na - nf
       \<and> nactive (gstats s) = of_nat (na - nf)
       \<and> active_size (gstats s) = sum_list (map size_a (active_allocations s))
       \<and> (na - nf < 2 ^ 64 \<longrightarrow> unat (nactive (gstats s)) = na - nf)
       \<and> (sum_list (map (\<lambda>a. unat (size_a a)) (active_allocations s)) < 2 ^ 64 \<longrightarrow>
            unat (active_size (gstats s)) = sum_list (map (\<lambda>a. unat (size_a a)) (active_allocations s)))"
proof -
  have ok: "buffer_ok (init_state base m)" using assms(1,2) by (rule init_buffer_ok)
  note t = run_tracks [OF ok, of fmt_p cs, folded s_def na_def nf_def]
  have len: "length (active_allocations s) + nf = na"
    using t by (simp add: init_state_def)
  have le: "nf \<le> na" and l: "length (active_allocations s) = na - nf"
    using len by simp_all
  have "nactive (gstats s) + of_nat nf = of_nat na"
    using t by (simp add: init_state_def init_stats_def)
  then have "nactive (gstats s) = of_nat na - of_nat nf"
    by (simp add: algebra_simps)
  then have n: "nactive (gstats s) = of_nat (na - nf)"
    using le by simp
  have a: "active_size (gstats s) = sum_list (map size_a (active_allocations s))"
    using t by (simp add: init_state_def init_stats_def)
  have n': "na - nf < 2 ^ 64 \<longrightarrow> unat (nactive (gstats s)) = na - nf"
    using n by (simp add: unat_of_nat)
  have "unat (active_size (gstats s))
      = sum_list (map (\<lambda>a. unat (size_a a)) (active_allocations s)) mod 2 ^ 64"
    unfolding a unat_sum_list by (simp add: comp_def)
  then have a': "sum_list (map (\<lambda>a. unat (size_a a)) (active_allocations s)) < 2 ^ 64 \<longrightarrow>
            unat (active_size (gstats s)) = sum_list (map (\<lambda>a. unat (size_a a)) (active_allocations s))"
    by simp
  show ?thesis using le l n a n' a' by blast
qed

text \<open>
  Five calls at address 4096: an allocation of 16 bytes, a failing allocation of 0
  bytes, a release, a second release of the same pointer, and a zeroed allocation of
  3 times 8 bytes. Two allocations and one release are successful; one record of 24
  bytes is live.
\<close>

lemma stats_track_registry_example:
  "(4096 :: addr) \<noteq> nullptr \<and> unat (4096 :: addr) + 2 ^ 23 < 2 ^ 64
   \<and> n_alloc_ok fmt_p_glibc
        [Malloc 16 (Some ''t.cc'') 1, Malloc 0 None 2, Free 4096 None 3, Free 4096 None 4, Calloc 3 8 None 5]
        (init_state 4096 anon_mem) = 2
   \<and> n_free_ok fmt_p_glibc
        [Malloc 16 (Some ''t.cc'') 1, Malloc 0 None 2, Free 4096 None 3, Free 4096 None 4, Calloc 3 8 None 5]
        (init_state 4096 anon_mem) = 1
   \<and> map size_a (active_allocations (run fmt_p_glibc
        [Malloc 16 (Some ''t.cc'') 1, Malloc 0 None 2, Free 4096 None 3, Free 4096 None 4, Calloc 3 8 None 5]
        (init_state 4096 anon_mem))) = [24]
   \<and> unat (nactive (gstats (run fmt_p_glibc
        [Malloc 16 (Some ''t.cc'') 1, Malloc 0 None 2, Free 4096 None 3, Free 4096 None 4, Calloc 3 8 None 5]
        (init_state 4096 anon_mem)))) = 1
   \<and> unat (active_size (gstats (run fmt_p_glibc
        [Malloc 16 (Some ''t.cc'') 1, Malloc 0 None 2, Free 4096 None 3, Free 4096 None 4, Calloc 3 8 None 5]
        (init_state 4096 anon_mem)))) = 24"
proof -
  let ?cs = "[Malloc 16 (Some ''t.cc'') 1, Malloc 0 None 2, Free 4096 None 3, Free 4096 None 4, Calloc 3 8 None 5]"
  let ?i = "init_state 4096 anon_mem"
  have h1: "(4096 :: addr) \<noteq> nullptr" by simp
  have h2: "unat (4096 :: addr) + 2 ^ 23 < 2 ^ 64" by simp
  have s1: "step fmt_p_glibc (Malloc 16 (Some ''t.cc'') 1) ?i =
      ?i\<lparr>default_buffer := \<lparr>buffer = 4096, pos = 16, size_b = 8388608\<rparr>,
         active_allocations := [\<lparr>ptr = 4096, size_a = 16, file_a = Some ''t.cc'', line = 1\<rparr>],
         gstats := \<lparr>nactive = 1, active_size = 16, ntotal = 1, total_size = 16,
                  nfail = 0, fail_size = 0, heap_min = 4096, heap_max = 4111\<rparr>\<rparr>"
    and r1: "returned (Malloc 16 (Some ''t.cc'') 1) ?i = 4096"
    by (simp_all add: m61_malloc_def init_state_def init_stats_def Let_def)
  have na: "n_alloc_ok fmt_p_glibc ?cs ?i = 2"
    and nf: "n_free_ok fmt_p_glibc ?cs ?i = 1"
    and regs: "map size_a (active_allocations (run fmt_p_glibc ?cs ?i)) = [24]"
    by (simp_all add: s1 r1)
       (simp_all add: m61_malloc_def m61_calloc_def m61_free_def init_state_def Let_def)
  note t = stats_track_registry [OF h1 h2, of fmt_p_glibc ?cs anon_mem]
  have "unat (nactive (gstats (run fmt_p_glibc ?cs ?i))) = 1"
    using t na nf by simp
  moreover have "unat (active_size (gstats (run fmt_p_glibc ?cs ?i))) = 24"
    using t regs by (simp add: comp_def)
  ultimately show ?thesis using h1 h2 na nf regs by blast
qed

text \<open>
  In a well-formed vector (byte ranges that do not run past the end of the address
  space and are pairwise apart, which is what runs without a wrapping request build,
  lemmas \<open>run_arena_inv\<close> and \<open>arena_inv_registry_ok\<close>), a pointer \<open>ptr a + k\<close> with
  \<open>0 < k < size a\<close> inside a live record \<open>a\<close> is not null and starts no record:
  \<^verbatim>\<open>m61_free\<close> only appends the diagnostic line to \<^verbatim>\<open>stderr\<close>.
\<close>

lemma free_interior_pointer:
  assumes ok: "registry_ok (active_allocations s)"
    and a: "a \<in> set (active_allocations s)"
    and k: "0 < k" "k < size_a a"
  shows "(q \<noteq> nullptr \<longrightarrow>
            (active_allocations (m61_free fmt_p q fl ln s) \<noteq> active_allocations s)
              = (q \<in> ptr ` set (active_allocations s)))
       \<and> ptr a + k \<noteq> nullptr
       \<and> ptr a + k \<notin> ptr ` set (active_allocations s)
       \<and> m61_free fmt_p (ptr a + k) fl ln s =
           s\<lparr>stderr_s := stderr_s s @ ''Invalid free or double free at '' @ file_or_unknown fl
                 @ '':'' @ fmt_d ln @ '' for pointer '' @ fmt_p (ptr a + k) @ [CHR 0x0A]\<rparr>"
proof -
  have ka: "unat k < unat (size_a a)" and k0: "0 < unat k"
    using k by (simp_all add: word_less_nat_alt)
  have ra: "unat (ptr a) + unat (size_a a) \<le> 2 ^ 64"
    using ok a by (simp add: registry_ok_def list_all_iff)
  have q: "unat (ptr a + k) = unat (ptr a) + unat k"
    using ka ra by (intro unat_add_nowrap) linarith
  have nz: "ptr a + k \<noteq> 0"
    using q k0 by (metis add_gr_0 unat_gt_0)
  have nin: "ptr a + k \<notin> ptr ` set (active_allocations s)"
  proof
    assume "ptr a + k \<in> ptr ` set (active_allocations s)"
    then obtain b where b: "b \<in> set (active_allocations s)" and pb: "ptr b = ptr a + k" by auto
    have ne: "ptr a \<noteq> ptr b"
      using pb q k0 by (metis less_not_refl less_add_same_cancel1)
    have "disjoint_ranges (active_allocations s)"
      using ok by (simp add: registry_ok_def)
    then have "apart a b"
      using a b ne by (rule disjoint_ranges_apart)
    then show False
      using pb q ka k0 by (simp add: apart_def)
  qed
  then have "find_erase (ptr a + k) (active_allocations s) = None"
    by (simp add: find_erase_None)
  then have "m61_free fmt_p (ptr a + k) fl ln s =
           s\<lparr>stderr_s := stderr_s s @ ''Invalid free or double free at '' @ file_or_unknown fl
                 @ '':'' @ fmt_d ln @ '' for pointer '' @ fmt_p (ptr a + k) @ [CHR 0x0A]\<rparr>"
    using nz by (simp add: m61_free_def invalid_free_msg_def)
  then show ?thesis using nz nin free_changes_vector_iff [where q = q and s = s and fmt_p = fmt_p and fl = fl and ln = ln] by blast
qed

text \<open>A release of the pointer 4096 + 5 inside a live allocation of 16 bytes at 4096.\<close>

lemma free_interior_pointer_example:
  "registry_ok (active_allocations (snd (m61_malloc 16 (Some ''t.cc'') 1 (init_state 4096 anon_mem))))
   \<and> \<lparr>ptr = 4096, size_a = 16, file_a = Some ''t.cc'', line = 1\<rparr>
       \<in> set (active_allocations (snd (m61_malloc 16 (Some ''t.cc'') 1 (init_state 4096 anon_mem))))
   \<and> (0 :: size_t) < 5 \<and> (5 :: size_t) < 16
   \<and> active_allocations (m61_free fmt_p_glibc 4096 (Some ''u.cc'') 9
         (snd (m61_malloc 16 (Some ''t.cc'') 1 (init_state 4096 anon_mem))))
       \<noteq> active_allocations (snd (m61_malloc 16 (Some ''t.cc'') 1 (init_state 4096 anon_mem)))
   \<and> m61_free fmt_p_glibc 4101 (Some ''u.cc'') 9 (snd (m61_malloc 16 (Some ''t.cc'') 1 (init_state 4096 anon_mem)))
       = (snd (m61_malloc 16 (Some ''t.cc'') 1 (init_state 4096 anon_mem)))
           \<lparr>stderr_s := ''Invalid free or double free at u.cc:9 for pointer 0x1005'' @ [CHR 0x0A]\<rparr>"
proof -
  let ?s = "snd (m61_malloc 16 (Some ''t.cc'') 1 (init_state 4096 anon_mem))"
  let ?a = "\<lparr>ptr = 4096, size_a = 16, file_a = Some ''t.cc'', line = 1\<rparr>"
  have regs: "active_allocations ?s = [?a]" and e: "stderr_s ?s = []"
    by (simp_all add: m61_malloc_def init_state_def init_stats_def Let_def)
  have ok: "registry_ok (active_allocations ?s)"
    by (simp add: regs registry_ok_def)
  have a: "?a \<in> set (active_allocations ?s)" by (simp add: regs)
  have k: "(0 :: size_t) < 5" "(5 :: size_t) < size_a ?a" by simp_all
  have d: "fmt_d 9 = ''9''" by code_simp
  have p: "fmt_p_glibc 4101 = ''0x1005''" by code_simp
  note t = free_interior_pointer [OF ok a k, where fmt_p = fmt_p_glibc and fl = "Some ''u.cc''"
      and ln = 9 and q = 4096]
  have ch: "active_allocations (m61_free fmt_p_glibc 4096 (Some ''u.cc'') 9 ?s) \<noteq> active_allocations ?s"
    using t by (simp add: regs)
  show ?thesis
    using t ok a ch by (simp add: e d p file_or_unknown_def)
qed

text \<open>
  Three allocations of 16, \<open>2^64 - 8\<close> and 4 bytes on a fresh allocator at address
  4096. The second request makes \<^verbatim>\<open>pos + sz\<close> wrap from 16 to 8, so the third record
  starts at 4104, inside the first.
\<close>

lemma malloc_overlap_state:
  "snd (m61_malloc 4 None 2 (snd (m61_malloc 18446744073709551608 None 1
        (snd (m61_malloc 16 None 0 (init_state 4096 anon_mem))))))
   = \<lparr>active_allocations =
         [\<lparr>ptr = 4096, size_a = 16, file_a = None, line = 0\<rparr>,
          \<lparr>ptr = 4112, size_a = 18446744073709551608, file_a = None, line = 1\<rparr>,
          \<lparr>ptr = 4104, size_a = 4, file_a = None, line = 2\<rparr>],
      gstats = \<lparr>nactive = 3, active_size = 12, ntotal = 3, total_size = 12,
                nfail = 0, fail_size = 0, heap_min = 4096, heap_max = 4111\<rparr>,
      default_buffer = \<lparr>buffer = 4096, pos = 12, size_b = 8388608\<rparr>,
      mem = anon_mem, stdout_s = [], stderr_s = []\<rparr>"
  by (simp add: m61_malloc_def init_state_def init_stats_def Let_def)

section \<open>Properties\<close>

text \<open>
  C1. The claim: after every sequence of calls the position is within the buffer, and
  every pointer returned by a successful allocation, with all of its \<^verbatim>\<open>sz\<close> bytes, lies
  in the buffer, also when \<^verbatim>\<open>pos + sz\<close> overflows \<^verbatim>\<open>size_t\<close>. The code at such an
  input: on a fresh allocator at address 4096, \<^verbatim>\<open>m61_malloc(1)\<close> returns 4096, and then
  \<^verbatim>\<open>m61_malloc(SIZE_MAX)\<close> succeeds, since \<^verbatim>\<open>1 + SIZE_MAX\<close> wraps to 0. It returns 4097 and
  records an allocation of \<open>2^64 - 1\<close> bytes there, whose end is far beyond the end
  \<open>4096 + 8388608\<close> of the buffer, and it sets the position back to 0. (The bound on the
  position alone holds after every run, lemma \<open>run_buffer_ok\<close>; and when no request
  is large enough to wrap, all records lie in the buffer, lemma \<open>run_arena_inv\<close>.)
\<close>

theorem malloc_wrap_leaves_arena:
  "fst (m61_malloc 1 None 0 (init_state 4096 anon_mem)) = 4096
   \<and> fst (m61_malloc SIZE_MAX None 0 (snd (m61_malloc 1 None 0 (init_state 4096 anon_mem)))) = 4097
   \<and> active_allocations (snd (m61_malloc SIZE_MAX None 0 (snd (m61_malloc 1 None 0 (init_state 4096 anon_mem)))))
       = [\<lparr>ptr = 4096, size_a = 1, file_a = None, line = 0\<rparr>,
          \<lparr>ptr = 4097, size_a = 18446744073709551615, file_a = None, line = 0\<rparr>]
   \<and> default_buffer (snd (m61_malloc SIZE_MAX None 0 (snd (m61_malloc 1 None 0 (init_state 4096 anon_mem)))))
       = \<lparr>buffer = 4096, pos = 0, size_b = 8388608\<rparr>
   \<and> unat (4096 :: addr) + unat (8388608 :: size_t) < unat (4097 :: addr) + unat (18446744073709551615 :: size_t)"
  by (simp add: malloc_1_state) (simp add: m61_malloc_def Let_def)

text \<open>
  C2, as amended. \<^verbatim>\<open>m61_print_leak_report\<close> appends to \<^verbatim>\<open>stdout\<close>, for each record of
  the vector and in the vector's order, exactly one line
  \<^verbatim>\<open>Leak Check: file:line: allocated object <address> with size <size>\<close>, ended by a
  newline, where a null \<^verbatim>\<open>file\<close> is printed as \<^verbatim>\<open>???\<close>. Nothing is appended for an
  empty vector, and nothing else of the state (vector, statistics, buffer, memory)
  changes.
\<close>

theorem leak_report_lines:
  "m61_print_leak_report fmt_p s =
     s\<lparr>stdout_s := stdout_s s @ concat (map (\<lambda>a.
          ''Leak Check: '' @ file_or_unknown (file_a a) @ '':'' @ fmt_d (line a)
            @ '': allocated object '' @ fmt_p (ptr a)
            @ '' with size '' @ fmt_zu (unat (size_a a)) @ [CHR 0x0A]) (active_allocations s))\<rparr>
   \<and> m61_print_leak_report fmt_p (s\<lparr>active_allocations := []\<rparr>) = s\<lparr>active_allocations := []\<rparr>
   \<and> active_allocations (m61_print_leak_report fmt_p s) = active_allocations s
   \<and> gstats (m61_print_leak_report fmt_p s) = gstats s"
  by (simp add: m61_print_leak_report_def leak_loop_eq leak_line_def [abs_def])

text \<open>
  C2 as stated fails: with one live record, allocated at \<^verbatim>\<open>t.cc:7\<close> with size 16, the
  report is the line \<^verbatim>\<open>Leak Check: t.cc:7: allocated object 0x1000 with size 16\<close>, which
  is not the line \<^verbatim>\<open>t.cc:7: allocated object 0x1000 with size 16\<close> of the specification.
\<close>

theorem leak_report_format_counterexample:
  "stdout_s (m61_print_leak_report fmt_p_glibc
       (snd (m61_malloc 16 (Some ''t.cc'') 7 (init_state 4096 anon_mem))))
     = ''Leak Check: t.cc:7: allocated object 0x1000 with size 16'' @ [CHR 0x0A]
   \<and> concat (map (spec_leak_line fmt_p_glibc)
       (active_allocations (snd (m61_malloc 16 (Some ''t.cc'') 7 (init_state 4096 anon_mem)))))
     = ''t.cc:7: allocated object 0x1000 with size 16'' @ [CHR 0x0A]
   \<and> stdout_s (m61_print_leak_report fmt_p_glibc
       (snd (m61_malloc 16 (Some ''t.cc'') 7 (init_state 4096 anon_mem))))
     \<noteq> concat (map (spec_leak_line fmt_p_glibc)
       (active_allocations (snd (m61_malloc 16 (Some ''t.cc'') 7 (init_state 4096 anon_mem)))))"
proof -
  have a: "active_allocations (snd (m61_malloc 16 (Some ''t.cc'') 7 (init_state 4096 anon_mem)))
      = [\<lparr>ptr = 4096, size_a = 16, file_a = Some ''t.cc'', line = 7\<rparr>]"
    and o: "stdout_s (snd (m61_malloc 16 (Some ''t.cc'') 7 (init_state 4096 anon_mem))) = []"
    by (simp_all add: m61_malloc_def init_state_def init_stats_def Let_def)
  have d: "fmt_d 7 = ''7''" by code_simp
  have z: "fmt_zu 16 = ''16''" by code_simp
  note p = fmt_p_glibc_4096
  show ?thesis
    by (simp add: m61_print_leak_report_def a o leak_line_def spec_leak_line_def
        file_or_unknown_def d z p)
qed

text \<open>
  C3. When \<^verbatim>\<open>count\<close> is not 0 and the product of \<^verbatim>\<open>count\<close> and \<^verbatim>\<open>sz\<close> does not fit in
  64 bits, \<^verbatim>\<open>m61_calloc\<close> returns the null pointer and changes only two statistics: the
  failure count grows by one and the failed-byte sum by the wrapped product
  \<^verbatim>\<open>count * sz\<close>. The buffer position and the vector are as before.
\<close>

theorem calloc_overflow_fails:
  assumes "count \<noteq> 0" and "2 ^ 64 \<le> unat count * unat sz"
  shows "m61_calloc count sz fl ln s =
     (nullptr, s\<lparr>gstats := (gstats s)\<lparr>nfail := nfail (gstats s) + 1,
                                      fail_size := fail_size (gstats s) + count * sz\<rparr>\<rparr>)"
  using assms by (simp add: m61_calloc_def overflow_guard_iff)

text \<open>The instance \<^verbatim>\<open>count = SIZE_MAX\<close>, \<^verbatim>\<open>sz = 2\<close>: the wrapped product is \<open>2^64 - 2\<close>.\<close>

theorem calloc_overflow_fails_witness:
  "(SIZE_MAX :: size_t) \<noteq> 0 \<and> 2 ^ 64 \<le> unat (SIZE_MAX :: size_t) * unat (2 :: size_t)
   \<and> fst (m61_calloc SIZE_MAX 2 None 0 (init_state 4096 anon_mem)) = nullptr
   \<and> active_allocations (snd (m61_calloc SIZE_MAX 2 None 0 (init_state 4096 anon_mem))) = []
   \<and> pos (default_buffer (snd (m61_calloc SIZE_MAX 2 None 0 (init_state 4096 anon_mem)))) = 0
   \<and> nfail (gstats (snd (m61_calloc SIZE_MAX 2 None 0 (init_state 4096 anon_mem)))) = 1
   \<and> fail_size (gstats (snd (m61_calloc SIZE_MAX 2 None 0 (init_state 4096 anon_mem))))
       = 18446744073709551614"
proof -
  have h1: "(SIZE_MAX :: size_t) \<noteq> 0" by simp
  have h2: "2 ^ 64 \<le> unat (SIZE_MAX :: size_t) * unat (2 :: size_t)"
    by (simp add: unsigned_minus_1_eq_mask mask_eq_exp_minus_1)
  show ?thesis
    using h1 h2 calloc_overflow_fails [OF h1 h2, of None 0 "init_state 4096 anon_mem"]
    by (simp add: init_state_def init_stats_def)
qed

text \<open>
  C4. The claim: after every sequence of calls \<^verbatim>\<open>nactive\<close> is the number of successful
  allocations minus that of successful releases, and \<^verbatim>\<open>active_size\<close> is the sum of the
  sizes of the live records. The code after \<^verbatim>\<open>m61_malloc(1)\<close> and \<^verbatim>\<open>m61_malloc(SIZE_MAX)\<close>
  on a fresh allocator at address 4096: both calls return a pointer that is not null,
  the live records have the sizes 1 and \<open>2^64 - 1\<close>, which sum to \<open>2^64\<close>, \<^verbatim>\<open>nactive\<close>
  is 2 and \<^verbatim>\<open>active_size\<close> is 0. The second request is granted only because
  \<^verbatim>\<open>pos + sz\<close> wraps in the test of \<^verbatim>\<open>m61_malloc\<close>. (In the arithmetic of the 64-bit
  counters the two equalities hold after every run, lemma \<open>stats_track_registry\<close>.)
\<close>

theorem active_size_wraps:
  "fst (m61_malloc 1 None 0 (init_state 4096 anon_mem)) \<noteq> nullptr
   \<and> fst (m61_malloc SIZE_MAX None 0 (snd (m61_malloc 1 None 0 (init_state 4096 anon_mem)))) \<noteq> nullptr
   \<and> map size_a (active_allocations
         (snd (m61_malloc SIZE_MAX None 0 (snd (m61_malloc 1 None 0 (init_state 4096 anon_mem))))))
       = [1, 18446744073709551615]
   \<and> sum_list (map unat (map size_a (active_allocations
         (snd (m61_malloc SIZE_MAX None 0 (snd (m61_malloc 1 None 0 (init_state 4096 anon_mem))))))))
       = 18446744073709551616
   \<and> nactive (gstats
         (snd (m61_malloc SIZE_MAX None 0 (snd (m61_malloc 1 None 0 (init_state 4096 anon_mem)))))) = 2
   \<and> unat (active_size (gstats
         (snd (m61_malloc SIZE_MAX None 0 (snd (m61_malloc 1 None 0 (init_state 4096 anon_mem))))))) = 0
   \<and> unat (active_size (gstats
         (snd (m61_malloc SIZE_MAX None 0 (snd (m61_malloc 1 None 0 (init_state 4096 anon_mem)))))))
       \<noteq> sum_list (map unat (map size_a (active_allocations
         (snd (m61_malloc SIZE_MAX None 0 (snd (m61_malloc 1 None 0 (init_state 4096 anon_mem))))))))"
  by (simp add: malloc_1_state)
     (simp add: m61_malloc_def Let_def unsigned_minus_1_eq_mask mask_eq_exp_minus_1)

text \<open>
  C5. The claim: when a request does not fit, that is \<open>pos + sz > size\<close>,
  \<^verbatim>\<open>m61_malloc\<close> fails, leaves the position and the vector as they are and only counts
  the failure. The code at position 1 with a request of \<^verbatim>\<open>SIZE_MAX\<close> bytes, which does
  not fit in the 8388608 bytes of the buffer: \<^verbatim>\<open>m61_malloc\<close> returns a pointer that is
  not null, the position becomes 0, the vector has a second record and no failure is
  counted. (When the comparison of the source, with its wrapping sum, does hold, the
  failure is as the claim says, lemma \<open>malloc_fail\<close>; so it is for the request of 2
  bytes after one of 8388607, lemma \<open>malloc_exhausted_example\<close>.)
\<close>

theorem malloc_oversize_succeeds:
  "pos (default_buffer (snd (m61_malloc 1 None 0 (init_state 4096 anon_mem)))) = 1
   \<and> size_b (default_buffer (snd (m61_malloc 1 None 0 (init_state 4096 anon_mem)))) = 8388608
   \<and> unat (8388608 :: size_t) < unat (1 :: size_t) + unat (SIZE_MAX :: size_t)
   \<and> fst (m61_malloc SIZE_MAX None 0 (snd (m61_malloc 1 None 0 (init_state 4096 anon_mem)))) \<noteq> nullptr
   \<and> pos (default_buffer (snd (m61_malloc SIZE_MAX None 0 (snd (m61_malloc 1 None 0 (init_state 4096 anon_mem)))))) = 0
   \<and> length (active_allocations (snd (m61_malloc SIZE_MAX None 0 (snd (m61_malloc 1 None 0 (init_state 4096 anon_mem)))))) = 2
   \<and> nfail (gstats (snd (m61_malloc SIZE_MAX None 0 (snd (m61_malloc 1 None 0 (init_state 4096 anon_mem)))))) = 0"
  by (simp add: malloc_1_state)
     (simp add: m61_malloc_def Let_def unsigned_minus_1_eq_mask mask_eq_exp_minus_1)

text \<open>
  C6. Let \<^verbatim>\<open>count\<close> and \<^verbatim>\<open>sz\<close> be non-zero with a product \<open>n\<close> that fits in 64 bits and
  in what is left of the buffer, the buffer being a region that \<^verbatim>\<open>mmap\<close> returned (not at
  address 0, not reaching the end of the address space). Then \<^verbatim>\<open>m61_calloc\<close> returns the
  non-null address \<open>buffer + pos\<close>, records an allocation of \<open>n\<close> bytes there, and on
  return each of the \<open>n\<close> bytes from that address on is 0. When \<^verbatim>\<open>count\<close> or \<^verbatim>\<open>sz\<close> is 0,
  it returns the null pointer and the vector is as before.
\<close>

theorem calloc_zeroed:
  fixes count sz :: size_t
  defines "n \<equiv> unat count * unat sz"
  shows "(count \<noteq> 0 \<and> sz \<noteq> 0 \<and> n < 2 ^ 64
            \<and> unat (pos (default_buffer s)) + n \<le> unat (size_b (default_buffer s))
            \<and> buffer (default_buffer s) \<noteq> nullptr
            \<and> unat (buffer (default_buffer s)) + unat (size_b (default_buffer s)) < 2 ^ 64
          \<longrightarrow> (case m61_calloc count sz fl ln s of (p, s') \<Rightarrow>
                 p \<noteq> nullptr \<and> p = buffer (default_buffer s) + pos (default_buffer s)
               \<and> unat (count * sz) = n
               \<and> active_allocations s' = active_allocations s
                    @ [\<lparr>ptr = p, size_a = count * sz, file_a = fl, line = ln\<rparr>]
               \<and> (\<forall>k. unat k < n \<longrightarrow> mem s' (p + k) = 0)))
       \<and> (count = 0 \<or> sz = 0
          \<longrightarrow> (case m61_calloc count sz fl ln s of (p, s') \<Rightarrow>
                 p = nullptr \<and> active_allocations s' = active_allocations s))"
proof (intro conjI impI)
  assume "count = 0 \<or> sz = 0"
  then show "case m61_calloc count sz fl ln s of (p, s') \<Rightarrow>
                 p = nullptr \<and> active_allocations s' = active_allocations s"
    by (auto simp: m61_calloc_def m61_malloc_def Let_def)
next
  assume h: "count \<noteq> 0 \<and> sz \<noteq> 0 \<and> n < 2 ^ 64
            \<and> unat (pos (default_buffer s)) + n \<le> unat (size_b (default_buffer s))
            \<and> buffer (default_buffer s) \<noteq> nullptr
            \<and> unat (buffer (default_buffer s)) + unat (size_b (default_buffer s)) < 2 ^ 64"
  have tot: "unat (count * sz) = n"
    using h by (simp add: n_def unat_mult_lem [THEN iffD1])
  have npos: "0 < n" using h by (simp add: n_def unat_gt_0)
  have nz: "count * sz \<noteq> 0"
    using tot npos by (metis less_not_refl unat_0)
  have guard: "\<not> SIZE_MAX div count < sz"
    using h by (simp add: overflow_guard_iff n_def)
  have fits: "\<not> (count * sz = 0 \<or> size_b (default_buffer s) < pos (default_buffer s) + count * sz)"
    using h tot nz by (intro malloc_fits) simp_all
  have pn: "buffer (default_buffer s) + pos (default_buffer s) \<noteq> 0"
  proof (rule base_plus_pos_nonnull)
    show "buffer (default_buffer s) \<noteq> 0" using h by simp
    show "unat (buffer (default_buffer s)) + unat (pos (default_buffer s)) < 2 ^ 64"
      using h npos by linarith
  qed
  have zero: "\<forall>k. unat k < n \<longrightarrow>
      memset m (buffer (default_buffer s) + pos (default_buffer s)) 0 (count * sz)
        (buffer (default_buffer s) + pos (default_buffer s) + k) = 0" for m
    using tot by (simp add: memset_inside)
  show "case m61_calloc count sz fl ln s of (p, s') \<Rightarrow>
                 p \<noteq> nullptr \<and> p = buffer (default_buffer s) + pos (default_buffer s)
               \<and> unat (count * sz) = n
               \<and> active_allocations s' = active_allocations s
                    @ [\<lparr>ptr = p, size_a = count * sz, file_a = fl, line = ln\<rparr>]
               \<and> (\<forall>k. unat k < n \<longrightarrow> mem s' (p + k) = 0)"
    using guard fits pn tot zero
    by (simp add: m61_calloc_def m61_malloc_def Let_def)
qed

text \<open>
  The instance \<^verbatim>\<open>count = 3\<close>, \<^verbatim>\<open>sz = 8\<close> on a fresh buffer at address 4096 whose bytes
  are all 255: the 24 bytes of the result read 0 (the first and the last are shown),
  the byte after them still reads 255; and \<^verbatim>\<open>count = 0\<close> fails.
\<close>

theorem calloc_zeroed_witness:
  "(3 :: size_t) \<noteq> 0 \<and> (8 :: size_t) \<noteq> 0
   \<and> fst (m61_calloc 3 8 (Some ''t.cc'') 10 (init_state 4096 (\<lambda>a. 255))) = 4096
   \<and> size_a (last (active_allocations
        (snd (m61_calloc 3 8 (Some ''t.cc'') 10 (init_state 4096 (\<lambda>a. 255)))))) = 24
   \<and> mem (snd (m61_calloc 3 8 (Some ''t.cc'') 10 (init_state 4096 (\<lambda>a. 255)))) (4096 + 0) = 0
   \<and> mem (snd (m61_calloc 3 8 (Some ''t.cc'') 10 (init_state 4096 (\<lambda>a. 255)))) (4096 + 23) = 0
   \<and> mem (snd (m61_calloc 3 8 (Some ''t.cc'') 10 (init_state 4096 (\<lambda>a. 255)))) (4096 + 24) = 255
   \<and> fst (m61_calloc 0 8 (Some ''t.cc'') 11 (init_state 4096 (\<lambda>a. 255))) = nullptr
   \<and> active_allocations (snd (m61_calloc 0 8 (Some ''t.cc'') 11 (init_state 4096 (\<lambda>a. 255)))) = []"
proof -
  let ?s = "init_state 4096 (\<lambda>a. 255)"
  have pre: "(3 :: size_t) \<noteq> 0 \<and> (8 :: size_t) \<noteq> 0 \<and> unat (3 :: size_t) * unat (8 :: size_t) < 2 ^ 64
      \<and> unat (pos (default_buffer ?s)) + unat (3 :: size_t) * unat (8 :: size_t)
          \<le> unat (size_b (default_buffer ?s))
      \<and> buffer (default_buffer ?s) \<noteq> nullptr
      \<and> unat (buffer (default_buffer ?s)) + unat (size_b (default_buffer ?s)) < 2 ^ 64"
    by (simp add: init_state_def)
  have A: "case m61_calloc 3 8 (Some ''t.cc'') 10 ?s of (p, s') \<Rightarrow>
                 p \<noteq> nullptr \<and> p = buffer (default_buffer ?s) + pos (default_buffer ?s)
               \<and> unat ((3 :: size_t) * 8) = unat (3 :: size_t) * unat (8 :: size_t)
               \<and> active_allocations s' = active_allocations ?s
                    @ [\<lparr>ptr = p, size_a = 3 * 8, file_a = Some ''t.cc'', line = 10\<rparr>]
               \<and> (\<forall>k. unat k < unat (3 :: size_t) * unat (8 :: size_t) \<longrightarrow> mem s' (p + k) = 0)"
    by (rule calloc_zeroed [where count = 3 and sz = 8 and s = ?s
          and fl = "Some ''t.cc''" and ln = 10, THEN conjunct1, THEN mp, OF pre])
  have B: "case m61_calloc 0 8 (Some ''t.cc'') 11 ?s of (p, s') \<Rightarrow>
                 p = nullptr \<and> active_allocations s' = active_allocations ?s"
    by (rule calloc_zeroed [where count = 0 and sz = 8 and s = ?s
          and fl = "Some ''t.cc''" and ln = 11, THEN conjunct2, THEN mp]) simp
  obtain p s' where r: "m61_calloc 3 8 (Some ''t.cc'') 10 ?s = (p, s')"
    by (cases "m61_calloc 3 8 (Some ''t.cc'') 10 ?s")
  have A': "p = buffer (default_buffer ?s) + pos (default_buffer ?s)"
      "active_allocations s' = active_allocations ?s
         @ [\<lparr>ptr = p, size_a = 3 * 8, file_a = Some ''t.cc'', line = 10\<rparr>]"
      "\<forall>k. unat k < unat (3 :: size_t) * unat (8 :: size_t) \<longrightarrow> mem s' (p + k) = 0"
    using A unfolding r prod.case by blast+
  have p: "p = 4096" using A'(1) by (simp add: init_state_def)
  have z: "\<forall>k. unat k < 24 \<longrightarrow> mem s' (p + k) = 0" using A'(3) by simp
  have z0: "mem s' (4096 + 0) = 0" using z [rule_format, of 0] p by simp
  have z23: "mem s' (4096 + 23) = 0" using z [rule_format, of 23] p by simp
  have l: "size_a (last (active_allocations s')) = 24" using A'(2) by simp
  have out: "mem (snd (m61_calloc 3 8 (Some ''t.cc'') 10 ?s)) (4096 + 24) = 255"
    by (simp add: m61_calloc_def m61_malloc_def Let_def init_state_def init_stats_def memset_def)
  show ?thesis
    using p z0 z23 l out B r by (simp add: init_state_def split: prod.splits)
qed

text \<open>
  C7. A request of size 0 fails: \<^verbatim>\<open>m61_malloc\<close> returns the null pointer, and the only
  change to the state is that the failure count grows by one. The vector, the buffer
  position, the active and total counters and the failed-byte sum (to which 0 is added)
  are as before.
\<close>

theorem malloc_zero_fails:
  "m61_malloc 0 fl ln s = (nullptr, s\<lparr>gstats := (gstats s)\<lparr>nfail := nfail (gstats s) + 1\<rparr>\<rparr>)"
  by (simp add: m61_malloc_def Let_def)

text \<open>
  C8. Let \<open>p\<close> be a non-null pointer. If no record of the vector has \<open>p\<close> as its
  \<^verbatim>\<open>ptr\<close>, then \<^verbatim>\<open>m61_free\<close> changes nothing but \<^verbatim>\<open>stderr\<close>, to which it appends the line
  \<^verbatim>\<open>Invalid free or double free at file:line for pointer p\<close>; the function returns, so
  the program goes on. The active count and byte sum, the other statistics and the
  vector are as before. And when the addresses of the live records are distinct, then
  after one \<^verbatim>\<open>m61_free\<close> of \<open>p\<close> no record has \<open>p\<close> as its \<^verbatim>\<open>ptr\<close>: a second release of
  the same address is such a call.
\<close>

theorem free_unknown_reports:
  assumes "p \<noteq> nullptr"
  shows "(p \<notin> ptr ` set (active_allocations s) \<longrightarrow>
           m61_free fmt_p p fl ln s =
             s\<lparr>stderr_s := stderr_s s @ ''Invalid free or double free at '' @ file_or_unknown fl
                   @ '':'' @ fmt_d ln @ '' for pointer '' @ fmt_p p @ [CHR 0x0A]\<rparr>)
       \<and> (distinct (map ptr (active_allocations s)) \<longrightarrow>
           p \<notin> ptr ` set (active_allocations (m61_free fmt_p p fl ln s)))"
proof (intro conjI impI)
  assume "p \<notin> ptr ` set (active_allocations s)"
  then have "find_erase p (active_allocations s) = None" by (simp add: find_erase_None)
  with assms show "m61_free fmt_p p fl ln s =
             s\<lparr>stderr_s := stderr_s s @ ''Invalid free or double free at '' @ file_or_unknown fl
                   @ '':'' @ fmt_d ln @ '' for pointer '' @ fmt_p p @ [CHR 0x0A]\<rparr>"
    by (simp add: m61_free_def invalid_free_msg_def)
next
  assume d: "distinct (map ptr (active_allocations s))"
  show "p \<notin> ptr ` set (active_allocations (m61_free fmt_p p fl ln s))"
  proof (cases "find_erase p (active_allocations s)")
    case None
    then have "m61_free fmt_p p fl ln s = s\<lparr>stderr_s := stderr_s s @ invalid_free_msg fmt_p p fl ln\<rparr>"
      using assms by (simp add: m61_free_def)
    moreover have "p \<notin> ptr ` set (active_allocations s)"
      using None by (simp add: find_erase_None)
    ultimately show ?thesis by simp
  next
    case (Some r)
    then obtain a as' where "find_erase p (active_allocations s) = Some (a, as')"
      by (cases r) simp
    then show ?thesis
      using assms d find_erase_Some_distinct [of p "active_allocations s" a as']
      by (simp add: m61_free_def)
  qed
qed

text \<open>
  An allocation of 16 bytes at address 4096 is released twice: after the first release
  the vector is empty, and the second one only writes the diagnostic.
\<close>

theorem free_unknown_reports_witness:
  "(4096 :: addr) \<noteq> nullptr
   \<and> distinct (map ptr (active_allocations (snd (m61_malloc 16 None 3 (init_state 4096 anon_mem)))))
   \<and> 4096 \<notin> ptr ` set (active_allocations (m61_free fmt_p_glibc 4096 (Some ''t.cc'') 12
        (snd (m61_malloc 16 None 3 (init_state 4096 anon_mem)))))
   \<and> active_allocations (m61_free fmt_p_glibc 4096 (Some ''t.cc'') 12
        (snd (m61_malloc 16 None 3 (init_state 4096 anon_mem)))) = []
   \<and> m61_free fmt_p_glibc 4096 (Some ''t.cc'') 13
        (m61_free fmt_p_glibc 4096 (Some ''t.cc'') 12
          (snd (m61_malloc 16 None 3 (init_state 4096 anon_mem))))
     = (m61_free fmt_p_glibc 4096 (Some ''t.cc'') 12
          (snd (m61_malloc 16 None 3 (init_state 4096 anon_mem))))
         \<lparr>stderr_s := ''Invalid free or double free at t.cc:13 for pointer 0x1000'' @ [CHR 0x0A]\<rparr>"
proof -
  let ?s1 = "snd (m61_malloc 16 None 3 (init_state 4096 anon_mem))"
  let ?s2 = "m61_free fmt_p_glibc 4096 (Some ''t.cc'') 12 ?s1"
  have d: "fmt_d 13 = ''13''" by code_simp
  note p = fmt_p_glibc_4096
  have a1: "active_allocations ?s1 = [\<lparr>ptr = 4096, size_a = 16, file_a = None, line = 3\<rparr>]"
    by (simp add: m61_malloc_def init_state_def init_stats_def Let_def)
  have e1: "stderr_s ?s1 = []"
    by (simp add: m61_malloc_def init_state_def init_stats_def Let_def)
  have a2: "active_allocations ?s2 = []" and e2: "stderr_s ?s2 = []"
    using a1 e1 by (simp_all add: m61_free_def)
  have nz: "(4096 :: addr) \<noteq> nullptr" by simp
  have "m61_free fmt_p_glibc 4096 (Some ''t.cc'') 13 ?s2 =
      ?s2\<lparr>stderr_s := stderr_s ?s2 @ ''Invalid free or double free at '' @ file_or_unknown (Some ''t.cc'')
                   @ '':'' @ fmt_d 13 @ '' for pointer '' @ fmt_p_glibc 4096 @ [CHR 0x0A]\<rparr>"
    using free_unknown_reports [OF nz, of ?s2 fmt_p_glibc "Some ''t.cc''" 13] a2 by simp
  moreover have dist: "distinct (map ptr (active_allocations ?s1))"
    by (simp add: a1)
  moreover have "4096 \<notin> ptr ` set (active_allocations ?s2)"
    using free_unknown_reports [OF nz, of ?s1 fmt_p_glibc "Some ''t.cc''" 12] dist by blast
  ultimately show ?thesis
    using a2 by (simp add: e2 d p file_or_unknown_def)
qed

text \<open>
  C9. Releasing the null pointer does nothing at all: the state returned, with its
  vector, statistics and output streams, is the state given.
\<close>

theorem free_null_noop:
  "m61_free fmt_p nullptr fl ln s = s"
  by (simp add: m61_free_def)

text \<open>
  C10. The claim: a release of a pointer strictly inside the byte range of a live
  allocation is treated as invalid, with the diagnostic written and the vector and the
  counters unchanged. The code after allocations of 16, \<open>2^64 - 8\<close> and 4 bytes on a
  fresh allocator at address 4096: the pointer \<open>4096 + 8\<close> lies strictly inside the
  first record, of 16 bytes at 4096, and the third record starts there, since the
  second request made \<^verbatim>\<open>pos + sz\<close> wrap in the test of \<^verbatim>\<open>m61_malloc\<close>. \<^verbatim>\<open>m61_free\<close> of
  that pointer erases the third record, takes \<^verbatim>\<open>nactive\<close> from 3 to 2 and \<^verbatim>\<open>active_size\<close>
  from 12 to 8, and writes nothing to \<^verbatim>\<open>stderr\<close>. (In a vector whose byte ranges are
  pairwise apart the release is as the claim says, lemma \<open>free_interior_pointer\<close>.)
\<close>

theorem free_interior_erases:
  "active_allocations (snd (m61_malloc 4 None 2 (snd (m61_malloc 18446744073709551608 None 1
        (snd (m61_malloc 16 None 0 (init_state 4096 anon_mem)))))))
     = [\<lparr>ptr = 4096, size_a = 16, file_a = None, line = 0\<rparr>,
        \<lparr>ptr = 4112, size_a = 18446744073709551608, file_a = None, line = 1\<rparr>,
        \<lparr>ptr = 4104, size_a = 4, file_a = None, line = 2\<rparr>]
   \<and> (0 :: size_t) < 8 \<and> (8 :: size_t) < 16
   \<and> m61_free fmt_p_glibc (4096 + 8) (Some ''u.cc'') 9
        (snd (m61_malloc 4 None 2 (snd (m61_malloc 18446744073709551608 None 1
          (snd (m61_malloc 16 None 0 (init_state 4096 anon_mem)))))))
     = \<lparr>active_allocations =
         [\<lparr>ptr = 4096, size_a = 16, file_a = None, line = 0\<rparr>,
          \<lparr>ptr = 4112, size_a = 18446744073709551608, file_a = None, line = 1\<rparr>],
        gstats = \<lparr>nactive = 2, active_size = 8, ntotal = 3, total_size = 12,
                  nfail = 0, fail_size = 0, heap_min = 4096, heap_max = 4111\<rparr>,
        default_buffer = \<lparr>buffer = 4096, pos = 12, size_b = 8388608\<rparr>,
        mem = anon_mem, stdout_s = [], stderr_s = []\<rparr>"
  by (simp add: malloc_overlap_state) (simp add: m61_free_def)

end
